theory Spec2Isabelle
  imports Main
begin

section \<open>Python values used by the redistribution tool\<close>

text \<open>
  The errors the modelled code can raise. \<open>HTTPError\<close> carries the status code of the
  response that \<open>raise_for_status\<close> rejected; \<open>KeyError\<close> carries the missing key.
\<close>

datatype error =
    KeyError string
  | TypeError
  | ValueError
  | HTTPError nat
  | ConnectionError

text \<open>
  A parsed JSON document as Python sees it after \<open>JSON_PARSER.parse(..., recursive=True)\<close>:
  an object is a \<open>dict\<close>, kept here as an association list read with \<open>map_of\<close>.
\<close>

datatype json =
    JNull
  | JBool bool
  | JNum int
  | JStr string
  | JArr "json list"
  | JObj "(string \<times> json) list"

text \<open>\<open>data[key]\<close> on a parsed JSON value: only a \<open>dict\<close> can be subscripted by a string.\<close>

fun getitem :: "json \<Rightarrow> string \<Rightarrow> error + json" where
  "getitem (JObj kvs) k = (case map_of kvs k of None \<Rightarrow> Inl (KeyError k) | Some v \<Rightarrow> Inr v)"
| "getitem _ k = Inl TypeError"

text \<open>
  A field annotated \<open>Final[str]\<close>: the subscripted value must be a string. A value of
  another JSON type is outside the annotation and is rejected here with \<open>TypeError\<close>.
\<close>

definition getstr :: "json \<Rightarrow> string \<Rightarrow> error + string" where
  "getstr d k = (case getitem d k of
                   Inl e \<Rightarrow> Inl e
                 | Inr (JStr s) \<Rightarrow> Inr s
                 | Inr _ \<Rightarrow> Inl TypeError)"

subsection \<open>String methods\<close>

definition startswith :: "string \<Rightarrow> string \<Rightarrow> bool" where
  "startswith s p = (take (length p) s = p)"

definition endswith :: "string \<Rightarrow> string \<Rightarrow> bool" where
  "endswith s p = (length p \<le> length s \<and> drop (length s - length p) s = p)"

definition removeprefix :: "string \<Rightarrow> string \<Rightarrow> string" where
  "removeprefix s p = (if startswith s p then drop (length p) s else s)"

definition removesuffix :: "string \<Rightarrow> string \<Rightarrow> string" where
  "removesuffix s p = (if p \<noteq> [] \<and> endswith s p then take (length s - length p) s else s)"

text \<open>\<open>s.index(c)\<close> for a one-character needle: the first position, or \<open>ValueError\<close>.\<close>

fun index :: "string \<Rightarrow> char \<Rightarrow> error + nat" where
  "index [] c = Inl ValueError"
| "index (x # xs) c =
     (if x = c then Inr 0
      else (case index xs c of Inl e \<Rightarrow> Inl e | Inr i \<Rightarrow> Inr (Suc i)))"

text \<open>\<open>s.rstrip("/")\<close>: every trailing occurrence of the character is removed.\<close>

definition rstrip :: "string \<Rightarrow> char \<Rightarrow> string" where
  "rstrip s c = rev (dropWhile (\<lambda>x. x = c) (rev s))"

subsection \<open>Compiled patterns and \<open>Pattern.match\<close>\<close>

text \<open>
  The fragment of Python's regular expressions that the tool's filters are written in.
  \<open>Dot\<close> is \<open>.\<close> (any character but a newline), \<open>Digit\<close> is \<open>\d\<close>, \<open>Star\<close> covers both
  \<open>*\<close> and \<open>*?\<close>: greediness changes which match is found, not whether one exists.
  \<open>Zero\<close> matches nothing; it is what a derivative leaves when a character is refused.
\<close>

datatype pattern =
    Zero
  | Eps
  | Lit char
  | Dot
  | Digit
  | Seq pattern pattern
  | Alt pattern pattern
  | Star pattern

definition Plus :: "pattern \<Rightarrow> pattern" where
  "Plus r = Seq r (Star r)"

fun lits :: "string \<Rightarrow> pattern" where
  "lits [] = Eps"
| "lits (c # cs) = Seq (Lit c) (lits cs)"

definition is_digit :: "char \<Rightarrow> bool" where
  "is_digit c = (c \<in> set ''0123456789'')"

inductive_set star :: "string set \<Rightarrow> string set" for A :: "string set" where
  star_empty: "[] \<in> star A"
| star_step: "u \<in> A \<Longrightarrow> v \<in> star A \<Longrightarrow> u @ v \<in> star A"

text \<open>The strings a pattern matches in full.\<close>

fun lang :: "pattern \<Rightarrow> string set" where
  "lang Zero = {}"
| "lang Eps = {[]}"
| "lang (Lit c) = {[c]}"
| "lang Dot = {[c] | c. c \<noteq> CHR 0x0A}"
| "lang Digit = {[c] | c. is_digit c}"
| "lang (Seq r s) = {u @ v | u v. u \<in> lang r \<and> v \<in> lang s}"
| "lang (Alt r s) = lang r \<union> lang s"
| "lang (Star r) = star (lang r)"

fun nullable :: "pattern \<Rightarrow> bool" where
  "nullable Zero = False"
| "nullable Eps = True"
| "nullable (Lit c) = False"
| "nullable Dot = False"
| "nullable Digit = False"
| "nullable (Seq r s) = (nullable r \<and> nullable s)"
| "nullable (Alt r s) = (nullable r \<or> nullable s)"
| "nullable (Star r) = True"

fun deriv :: "char \<Rightarrow> pattern \<Rightarrow> pattern" where
  "deriv c Zero = Zero"
| "deriv c Eps = Zero"
| "deriv c (Lit d) = (if c = d then Eps else Zero)"
| "deriv c Dot = (if c \<noteq> CHR 0x0A then Eps else Zero)"
| "deriv c Digit = (if is_digit c then Eps else Zero)"
| "deriv c (Seq r s) =
     (if nullable r then Alt (Seq (deriv c r) s) (deriv c s) else Seq (deriv c r) s)"
| "deriv c (Alt r s) = Alt (deriv c r) (deriv c s)"
| "deriv c (Star r) = Seq (deriv c r) (Star r)"

text \<open>
  \<open>pattern.match(s)\<close> read as a truth value: a match object when some prefix of \<open>s\<close>
  is matched, \<open>None\<close> otherwise. The match starts at position 0 and may end anywhere.
\<close>

fun re_match :: "pattern \<Rightarrow> string \<Rightarrow> bool" where
  "re_match r [] = nullable r"
| "re_match r (c # cs) = (nullable r \<or> re_match (deriv c r) cs)"

text \<open>\<open>pattern.search(s)\<close>, for comparison: a match may start at any position.\<close>

fun re_search :: "pattern \<Rightarrow> string \<Rightarrow> bool" where
  "re_search r [] = re_match r []"
| "re_search r (c # cs) = (re_match r (c # cs) \<or> re_search r cs)"

section \<open>Releases and assets (\<open>redist/release.py\<close>)\<close>

record release =
  r_data :: json
  r_tag :: string

record asset =
  a_data :: json
  a_name :: string
  a_release :: release

text \<open>What the \<open>other: Any\<close> argument of an \<open>__eq__\<close> method may be.\<close>

datatype pyobj =
    PRelease release
  | PAsset asset
  | POther json

definition Release_init :: "json \<Rightarrow> error + release" where
  "Release_init d = (case getstr d ''tag_name'' of
                       Inl e \<Rightarrow> Inl e
                     | Inr t \<Rightarrow> Inr \<lparr>r_data = d, r_tag = t\<rparr>)"

definition Asset_init :: "json \<Rightarrow> release \<Rightarrow> error + asset" where
  "Asset_init d r = (case getstr d ''name'' of
                       Inl e \<Rightarrow> Inl e
                     | Inr n \<Rightarrow> Inr \<lparr>a_data = d, a_name = n, a_release = r\<rparr>)"

fun Release_eq :: "release \<Rightarrow> pyobj \<Rightarrow> bool" where
  "Release_eq self (PRelease other) = (r_tag self = r_tag other)"
| "Release_eq self _ = False"

fun Asset_eq :: "asset \<Rightarrow> pyobj \<Rightarrow> bool" where
  "Asset_eq self (PAsset other) =
     (a_name self = a_name other \<and> Release_eq (a_release self) (PRelease (a_release other)))"
| "Asset_eq self _ = False"

definition Release_str :: "release \<Rightarrow> string" where
  "Release_str self = r_tag self"

definition Release_tag :: "release \<Rightarrow> string" where
  "Release_tag self = r_tag self"

definition Release_version :: "release \<Rightarrow> string" where
  "Release_version self = removeprefix (r_tag self) ''v''"

definition Asset_name :: "asset \<Rightarrow> string" where
  "Asset_name self = a_name self"


section \<open>Lazy sequences\<close>

text \<open>
  A generator is modelled by what a consumer that drains it observes: the page requests
  sent and the values yielded, in the order they happen, and how the iteration ends.
  \<open>Unfinished\<close> is the ending of a run that was cut off by its fuel.
\<close>

datatype ending = Finished | Raised error | Unfinished

datatype 'a event = Fetch string | Yield 'a

datatype 'a gen = Gen (events: "'a event list") (ending: ending)

fun yields :: "'a event list \<Rightarrow> 'a list" where
  "yields [] = []"
| "yields (Fetch u # evs) = yields evs"
| "yields (Yield x # evs) = x # yields evs"

fun fetches :: "'a event list \<Rightarrow> string list" where
  "fetches [] = []"
| "fetches (Fetch u # evs) = u # fetches evs"
| "fetches (Yield x # evs) = fetches evs"

definition yielded :: "'a gen \<Rightarrow> 'a list" where
  "yielded g = yields (events g)"

definition fetched :: "'a gen \<Rightarrow> string list" where
  "fetched g = fetches (events g)"

fun keep :: "('a \<Rightarrow> bool) \<Rightarrow> 'a event \<Rightarrow> bool" where
  "keep p (Fetch u) = True"
| "keep p (Yield x) = p x"

text \<open>The generator expression \<open>(it for it in g if p(it))\<close>.\<close>

fun gen_filter :: "('a \<Rightarrow> bool) \<Rightarrow> 'a gen \<Rightarrow> 'a gen" where
  "gen_filter p (Gen evs en) = Gen (filter (keep p) evs) en"

fun gen_prepend :: "'a event list \<Rightarrow> 'a gen \<Rightarrow> 'a gen" where
  "gen_prepend pre (Gen evs en) = Gen (pre @ evs) en"

text \<open>
  \<open>iter(x)\<close> on a parsed JSON value: a list gives its elements, a \<open>dict\<close> its keys, a
  string its characters; nothing else is iterable.
\<close>

fun py_iter :: "json \<Rightarrow> error + json list" where
  "py_iter (JArr xs) = Inr xs"
| "py_iter (JObj kvs) = Inr (map (\<lambda>kv. JStr (fst kv)) kvs)"
| "py_iter (JStr s) = Inr (map (\<lambda>c. JStr [c]) s)"
| "py_iter _ = Inl TypeError"

text \<open>
  \<open>map(f, xs)\<close> drained lazily, for a constructor \<open>f\<close> that may raise: the values built
  before the first failure are yielded, then the error ends the iteration.
\<close>

fun gen_map :: "(json \<Rightarrow> error + 'a) \<Rightarrow> json list \<Rightarrow> 'a gen" where
  "gen_map f [] = Gen [] Finished"
| "gen_map f (d # ds) =
     (case f d of
        Inl e \<Rightarrow> Gen [] (Raised e)
      | Inr x \<Rightarrow> gen_prepend [Yield x] (gen_map f ds))"

subsection \<open>\<open>Release.assets\<close>\<close>

text \<open>
  The outermost iterable of a generator expression is evaluated when the expression is:
  a missing or non-iterable \<open>assets\<close> entry raises at the call, before anything is yielded.
\<close>

definition Release_assets :: "release \<Rightarrow> pattern option \<Rightarrow> error + asset gen" where
  "Release_assets self asset_filter =
     (case getitem (r_data self) ''assets'' of
        Inl e \<Rightarrow> Inl e
      | Inr a \<Rightarrow>
         (case py_iter a of
            Inl e \<Rightarrow> Inl e
          | Inr ds \<Rightarrow>
             (let assets = gen_map (\<lambda>it. Asset_init it self) ds in
              case asset_filter of
                None \<Rightarrow> Inr assets
              | Some f \<Rightarrow> Inr (gen_filter (\<lambda>it. re_match f (Asset_name it)) assets))))"

section \<open>The HTTP session (\<open>redist/http.py\<close>)\<close>

definition environ_get :: "(string \<rightharpoonup> string) \<Rightarrow> string \<Rightarrow> string \<Rightarrow> string" where
  "environ_get environ k dflt = (case environ k of None \<Rightarrow> dflt | Some v \<Rightarrow> v)"

definition token :: "(string \<rightharpoonup> string) \<Rightarrow> string" where
  "token environ = environ_get environ ''GITHUB_TOKEN'' (environ_get environ ''GH_TOKEN'' [])"

text \<open>The module's start-up code, from the headers of a fresh \<open>Session()\<close> to those it leaves.\<close>

definition session_headers ::
  "(string \<rightharpoonup> string) \<Rightarrow> (string \<rightharpoonup> string) \<Rightarrow> (string \<rightharpoonup> string)" where
  "session_headers environ headers =
     (if startswith (token environ) ''ghp_''
      then headers(''Authorization'' \<mapsto> ''Bearer '' @ token environ)
      else headers)"

text \<open>
  The credential as the specification words it: the first non-empty value among the two
  variables.
\<close>

definition spec_token :: "(string \<rightharpoonup> string) \<Rightarrow> string" where
  "spec_token environ =
     (case environ ''GITHUB_TOKEN'' of
        Some v \<Rightarrow> if v \<noteq> [] then v else environ_get environ ''GH_TOKEN'' []
      | None \<Rightarrow> environ_get environ ''GH_TOKEN'' [])"

section \<open>Repositories (\<open>redist/repo.py\<close>)\<close>

record response =
  status_code :: nat
  content :: string
  links :: "string \<rightharpoonup> (string \<rightharpoonup> string)"

text \<open>
  What the code reaches outside the repository's sources: \<open>SESSION.get\<close>, whose answer
  to the \<open>i\<close>-th request of a listing may be a response or a transport error, and
  \<open>JSON_PARSER.parse\<close>.
\<close>

record world =
  http_get :: "nat \<Rightarrow> string \<Rightarrow> error + response"
  json_parse :: "string \<Rightarrow> error + json"

text \<open>
  \<open>Response.raise_for_status\<close> of the requests library raises \<open>HTTPError\<close> for client
  errors (400 to 499) and server errors (500 to 599), and for no other status.
\<close>

definition raise_for_status :: "response \<Rightarrow> error option" where
  "raise_for_status r =
     (if 400 \<le> status_code r \<and> status_code r < 600 then Some (HTTPError (status_code r))
      else None)"

record ghrepo =
  g_repo :: string
  g_base_url :: string

definition GHRepo_init :: "string \<Rightarrow> string option \<Rightarrow> ghrepo" where
  "GHRepo_init repo base_url =
     \<lparr>g_repo = repo,
      g_base_url = (case base_url of
                      None \<Rightarrow> ''https://api.github.com''
                    | Some b \<Rightarrow> rstrip b CHR ''/'')\<rparr>"

text \<open>
  The \<open>while True\<close> loop of \<open>GHRepo.releases\<close>. It ends only when a page carries no
  \<open>next\<close> link or something raises, so the model takes fuel: one unit per page request.
\<close>

fun releases_loop :: "world \<Rightarrow> nat \<Rightarrow> nat \<Rightarrow> string \<Rightarrow> release gen" where
  "releases_loop w 0 i url = Gen [] Unfinished"
| "releases_loop w (Suc n) i url =
     (case http_get w i url of
        Inl e \<Rightarrow> Gen [Fetch url] (Raised e)
      | Inr response \<Rightarrow>
         (case raise_for_status response of
            Some e \<Rightarrow> Gen [Fetch url] (Raised e)
          | None \<Rightarrow>
             (case json_parse w (content response) of
                Inl e \<Rightarrow> Gen [Fetch url] (Raised e)
              | Inr doc \<Rightarrow>
                 (case py_iter doc of
                    Inl e \<Rightarrow> Gen [Fetch url] (Raised e)
                  | Inr ds \<Rightarrow>
                     (case gen_map Release_init ds of
                        Gen evs Finished \<Rightarrow>
                          (case links response ''next'' of
                             None \<Rightarrow> Gen (Fetch url # evs) Finished
                           | Some l \<Rightarrow>
                              (case l ''url'' of
                                 None \<Rightarrow> Gen (Fetch url # evs) (Raised (KeyError ''url''))
                               | Some u \<Rightarrow>
                                  gen_prepend (Fetch url # evs) (releases_loop w n (Suc i) u)))
                      | Gen evs en \<Rightarrow> Gen (Fetch url # evs) en)))))"

definition GHRepo_releases :: "world \<Rightarrow> nat \<Rightarrow> ghrepo \<Rightarrow> release gen" where
  "GHRepo_releases w fuel self =
     releases_loop w fuel 0
       (g_base_url self @ ''/repos/'' @ g_repo self @ ''/releases?per_page=100'')"

text \<open>
  \<open>it in ignore\<close> on a tuple of releases: some element compares equal to \<open>it\<close>
  (an identical element does so too, equality being by tag).
\<close>

fun py_in :: "release \<Rightarrow> release list \<Rightarrow> bool" where
  "py_in it [] = False"
| "py_in it (e # es) = (Release_eq e (PRelease it) \<or> py_in it es)"

text \<open>
  The body of \<open>GHSrcRepo.releases\<close>, with its four branches; \<open>src\<close> is the value of
  \<open>super().releases()\<close>, which every branch starts from. The body tests \<open>ignore is None\<close>,
  so \<open>ignore\<close> is optional here.
\<close>

definition releases_body ::
  "release gen \<Rightarrow> pattern option \<Rightarrow> release list option \<Rightarrow> release gen" where
  "releases_body src tag_filter ignore =
     (case tag_filter of
        None \<Rightarrow>
          (case ignore of
             None \<Rightarrow> src
           | Some ig \<Rightarrow> gen_filter (\<lambda>it. \<not> py_in it ig) src)
      | Some tf \<Rightarrow>
          (case ignore of
             None \<Rightarrow> gen_filter (\<lambda>it. re_match tf (Release_tag it)) src
           | Some ig \<Rightarrow> gen_filter (\<lambda>it. \<not> py_in it ig \<and> re_match tf (Release_tag it)) src))"

text \<open>
  The method as called: \<open>*ignore\<close> collects the remaining positional arguments in a
  tuple, which is empty when there are none and never \<open>None\<close>.
\<close>

definition GHSrcRepo_releases ::
  "world \<Rightarrow> nat \<Rightarrow> ghrepo \<Rightarrow> pattern option \<Rightarrow> release list \<Rightarrow> release gen" where
  "GHSrcRepo_releases w fuel self tag_filter ignore =
     releases_body (GHRepo_releases w fuel self) tag_filter (Some ignore)"

text \<open>
  The Differ as the specification words it: one pass over the source with one predicate,
  (the filter is absent or matches the tag) and (the release equals no release already
  present). An absent exclusion excludes nothing.
\<close>

definition spec_predicate :: "pattern option \<Rightarrow> release list option \<Rightarrow> release \<Rightarrow> bool" where
  "spec_predicate tag_filter already_present it =
     ((case tag_filter of None \<Rightarrow> True | Some tf \<Rightarrow> re_match tf (r_tag it)) \<and>
      r_tag it \<notin> set (map r_tag (case already_present of None \<Rightarrow> [] | Some ig \<Rightarrow> ig)))"

definition spec_differ ::
  "release gen \<Rightarrow> pattern option \<Rightarrow> release list option \<Rightarrow> release gen" where
  "spec_differ src tag_filter already_present =
     gen_filter (spec_predicate tag_filter already_present) src"

text \<open>Independent stages, one per predicate that is present, layered over the source.\<close>

definition layered ::
  "release gen \<Rightarrow> pattern option \<Rightarrow> release list option \<Rightarrow> release gen" where
  "layered src tag_filter already_present =
     (let g1 = (case tag_filter of
                  None \<Rightarrow> src
                | Some tf \<Rightarrow> gen_filter (\<lambda>it. re_match tf (r_tag it)) src)
      in case already_present of
           None \<Rightarrow> g1
         | Some ig \<Rightarrow> gen_filter (\<lambda>it. r_tag it \<notin> set (map r_tag ig)) g1)"


section \<open>The build and assemble steps (\<open>redist.py\<close>)\<close>

definition EXE_NAME :: string where
  "EXE_NAME = ''protoc''"

definition platform_table :: "(string \<times> string) list" where
  "platform_table =
     [(''linux-aarch_64'', ''manylinux_2_17_aarch64.manylinux2014_aarch64''),
      (''linux-ppcle_64'', ''manylinux_2_17_ppc64le.manylinux2014_ppc64le''),
      (''linux-s390_64'', ''manylinux_2_17_s390x.manylinux2014_s390x''),
      (''linux-x86_32'', ''manylinux_2_5_i686.manylinux1_i686''),
      (''linux-x86_64'', ''manylinux_2_5_x86_64.manylinux1_x86_64''),
      (''osx-aarch_64'', ''macosx_11_0_arm64''),
      (''osx-x86_64'', ''macosx_10_4_x86_64''),
      (''win32'', ''win32''),
      (''win64'', ''win_amd64'')]"

text \<open>
  \<open>s[s.index("-") + 1 :]\<close> raises \<open>ValueError\<close> when \<open>s\<close> holds no dash; the final
  \<open>dict.get\<close> gives \<open>None\<close> for a key that is not in the table.
\<close>

definition map_platform :: "string \<Rightarrow> error + string option" where
  "map_platform s0 =
     (let s1 = removesuffix s0 ''.zip'';
          s2 = removeprefix s1 (EXE_NAME @ ''-'')
      in case index s2 CHR ''-'' of
           Inl e \<Rightarrow> Inl e
         | Inr i \<Rightarrow> Inr (map_of platform_table (drop (i + 1) s2)))"

text \<open>
  An entry that \<open>src.glob("*.zip")\<close> delivers: its name, whether it is a regular file, and
  the members of the archive with their contents.
\<close>

record cache_file =
  f_name :: string
  f_is_file :: bool
  f_members :: "(string \<times> string) list"

datatype log_entry =
    DebugNonFile string
  | WarningUnknownPlatform string

text \<open>What the build step leaves: the lines logged and the files written under \<open>dst\<close>.\<close>

record build_state =
  logged :: "log_entry list"
  written :: "(string \<times> string) list"

text \<open>The loop over \<open>zip_file.namelist()\<close>: the first member that is the executable is copied.\<close>

fun extract_exe :: "(string \<times> string) list \<Rightarrow> string option" where
  "extract_exe [] = None"
| "extract_exe ((it, bytes) # rest) =
     (if it = ''bin/protoc'' \<or> it = ''bin/protoc.exe'' then Some bytes else extract_exe rest)"

text \<open>
  The inner loop of \<open>build\<close> over the archives of one release directory. \<open>verbose\<close> is
  \<open>CI or VERBOSE\<close>, the condition under which \<open>debug\<close> prints. An exception raised by
  \<open>map_platform\<close> is not handled: it leaves the loop and the command.
\<close>

fun build_archives :: "bool \<Rightarrow> cache_file list \<Rightarrow> build_state \<Rightarrow> error + build_state" where
  "build_archives verbose [] st = Inr st"
| "build_archives verbose (exe_src # rest) st =
     (if \<not> f_is_file exe_src then
        build_archives verbose rest
          (if verbose then st\<lparr>logged := logged st @ [DebugNonFile (f_name exe_src)]\<rparr> else st)
      else
        (case map_platform (f_name exe_src) of
           Inl e \<Rightarrow> Inl e
         | Inr None \<Rightarrow>
             build_archives verbose rest
               (st\<lparr>logged := logged st @ [WarningUnknownPlatform (f_name exe_src)]\<rparr>)
         | Inr (Some p) \<Rightarrow>
             (let exe_platform = ''py2.py3-none-'' @ p in
              case extract_exe (f_members exe_src) of
                None \<Rightarrow> build_archives verbose rest st
              | Some bytes \<Rightarrow>
                  build_archives verbose rest
                    (st\<lparr>written := written st @ [(exe_platform, bytes)]\<rparr>))))"

subsection \<open>Wheel entries\<close>

record zipinfo =
  filename :: string
  date_time :: "nat \<times> nat \<times> nat \<times> nat \<times> nat \<times> nat"
  create_system :: nat
  compress_type :: nat
  external_attr :: nat
  file_size :: nat

text \<open>
  \<open>ZipInfo(filename)\<close>: the default date is 1 January 1980, and \<open>create_system\<close> is 0 on
  Windows and 3 elsewhere.
\<close>

definition ZipInfo :: "bool \<Rightarrow> string \<Rightarrow> zipinfo" where
  "ZipInfo win32 name =
     \<lparr>filename = name, date_time = (1980, 1, 1, 0, 0, 0),
      create_system = (if win32 then 0 else 3),
      compress_type = 0, external_attr = 0, file_size = 0\<rparr>"

definition ZIP_DEFLATED :: nat where
  "ZIP_DEFLATED = 8"

text \<open>
  \<open>ReproducibleWheelFile.writestr\<close>; \<open>super_writestr\<close> is \<open>WheelFile.writestr\<close>, which
  takes the entry, its content and the archive written so far.
\<close>

definition writestr ::
  "(zipinfo \<Rightarrow> string \<Rightarrow> 'w \<Rightarrow> 'w) \<Rightarrow> zipinfo \<Rightarrow> string \<Rightarrow> 'w \<Rightarrow> 'w" where
  "writestr super_writestr zi bytes whl =
     super_writestr (zi\<lparr>create_system := 3, date_time := (1980, 1, 1, 0, 0, 0)\<rparr>) bytes whl"

text \<open>An archive kept as the list of its entries, each appended as it is written.\<close>

definition append_entry ::
  "zipinfo \<Rightarrow> string \<Rightarrow> (zipinfo \<times> string) list \<Rightarrow> (zipinfo \<times> string) list" where
  "append_entry zi bytes whl = whl @ [(zi, bytes)]"

text \<open>
  The loop of \<open>assemble\<close> that fills one wheel from its (name, content, permission)
  triples; \<open>(p + 0o100000) << 16\<close> is written with its multiplication.
\<close>

fun write_entries ::
  "(zipinfo \<Rightarrow> string \<Rightarrow> 'w \<Rightarrow> 'w) \<Rightarrow> bool \<Rightarrow> (string \<times> string \<times> nat) list \<Rightarrow> 'w \<Rightarrow> 'w" where
  "write_entries super_writestr win32 [] it = it"
| "write_entries super_writestr win32 ((k0, v, p) # rest) it =
     (let k = (ZipInfo win32 k0)\<lparr>compress_type := ZIP_DEFLATED,
                                 external_attr := (p + 32768) * 2 ^ 16,
                                 file_size := length v\<rparr>
      in write_entries super_writestr win32 rest (writestr super_writestr k v it))"


section \<open>Concrete repositories, responses and patterns\<close>

text \<open>
  Inputs on which the model is run: the upstream repository and its listing address, a
  second page, a server that fails on the second page, a server that answers
  \<open>300 Multiple Choices\<close> with a release list, the two filters and the release with two
  assets of the specification's examples.
\<close>

definition list_url :: string where
  "list_url = ''https://api.github.com/repos/protocolbuffers/protobuf/releases?per_page=100''"

definition page2_url :: string where
  "page2_url = ''https://api.github.com/repositories/1/releases?per_page=100&page=2''"

definition one_release_doc :: json where
  "one_release_doc = JArr [JObj [(''tag_name'', JStr ''v1''), (''assets'', JArr [])]]"

definition failing_world :: world where
  "failing_world =
     \<lparr>http_get = (\<lambda>i url.
        if i = 0
        then Inr \<lparr>status_code = 200, content = ''page'',
                  links = [''next'' \<mapsto> [''url'' \<mapsto> page2_url]]\<rparr>
        else Inr \<lparr>status_code = 503, content = [], links = Map.empty\<rparr>),
      json_parse = (\<lambda>s. if s = ''page'' then Inr one_release_doc else Inl ValueError)\<rparr>"

definition multiple_choices_world :: world where
  "multiple_choices_world =
     \<lparr>http_get = (\<lambda>i url. Inr \<lparr>status_code = 300, content = ''page'', links = Map.empty\<rparr>),
      json_parse = (\<lambda>s. if s = ''page'' then Inr one_release_doc else Inl ValueError)\<rparr>"

definition upstream :: ghrepo where
  "upstream = GHRepo_init ''protocolbuffers/protobuf'' None"

definition linux_zip :: pattern where
  "linux_zip = Seq (lits ''protoc-'') (Seq Digit (Seq (Star Dot) (Seq (lits ''-linux'')
                 (Seq (Star Dot) (lits ''.zip'')))))"

definition v3_tags :: pattern where
  "v3_tags = Seq (lits ''v3.'') (Seq (Plus Digit) (Seq (Lit CHR ''.'') (Plus Digit)))"

definition two_assets :: release where
  "two_assets =
     \<lparr>r_data = JObj [(''tag_name'', JStr ''v1''),
                     (''assets'', JArr [JObj [(''name'', JStr ''protoc-1-linux-x86_64.zip'')],
                                       JObj [(''name'', JStr ''protoc-1-win64.zip'')]])],
      r_tag = ''v1''\<rparr>"

section \<open>Properties of the string and pattern operations\<close>

lemma nullable_lang: "nullable r \<longleftrightarrow> [] \<in> lang r"
  by (induction r) (auto intro: star.star_empty)

lemma star_cons_split:
  assumes "w \<in> star A" "w = c # t"
  shows "\<exists>u v. t = u @ v \<and> c # u \<in> A \<and> v \<in> star A"
  using assms
proof (induction arbitrary: t rule: star.induct)
  case star_empty
  then show ?case by simp
next
  case (star_step u v)
  show ?case
  proof (cases u)
    case Nil
    with star_step show ?thesis by simp
  next
    case (Cons a u')
    with star_step.prems star_step.hyps show ?thesis by auto
  qed
qed

lemma star_cons_iff:
  "c # t \<in> star A \<longleftrightarrow> (\<exists>u v. t = u @ v \<and> c # u \<in> A \<and> v \<in> star A)"
proof
  assume "c # t \<in> star A"
  then show "\<exists>u v. t = u @ v \<and> c # u \<in> A \<and> v \<in> star A"
    using star_cons_split by blast
next
  assume "\<exists>u v. t = u @ v \<and> c # u \<in> A \<and> v \<in> star A"
  then obtain u v where "t = u @ v" "c # u \<in> A" "v \<in> star A" by blast
  then show "c # t \<in> star A"
    using star.star_step [of "c # u" A v] by simp
qed

lemma lang_deriv: "w \<in> lang (deriv c r) \<longleftrightarrow> c # w \<in> lang r"
proof (induction r arbitrary: w)
  case (Seq r s)
  show ?case
    by (auto simp: Seq nullable_lang Cons_eq_append_conv) 
next
  case (Star r)
  show ?case
    by (auto simp: Star star_cons_iff)
qed auto

lemma re_match_prefix: "re_match r s \<longleftrightarrow> (\<exists>p q. s = p @ q \<and> p \<in> lang r)"
proof (induction s arbitrary: r)
  case Nil
  then show ?case by (simp add: nullable_lang)
next
  case (Cons c cs)
  show ?case
    by (auto simp: Cons nullable_lang lang_deriv Cons_eq_append_conv)
qed

lemma startswith_append: "startswith s p \<longleftrightarrow> (\<exists>rest. s = p @ rest)"
proof
  assume "startswith s p"
  then have "s = p @ drop (length p) s"
    by (metis append_take_drop_id startswith_def)
  then show "\<exists>rest. s = p @ rest" ..
next
  assume "\<exists>rest. s = p @ rest"
  then show "startswith s p" by (auto simp: startswith_def)
qed

lemma index_Inr_iff: "(\<exists>i. index s c = Inr i) \<longleftrightarrow> c \<in> set s"
  by (induction s) (auto split: sum.splits)

lemma index_Inl: "index s c = Inl e \<Longrightarrow> e = ValueError \<and> c \<notin> set s"
  by (induction s arbitrary: e) (auto split: sum.splits if_splits)

lemma map_platform_dash:
  "map_platform s = Inl e \<longleftrightarrow>
   e = ValueError \<and> CHR ''-'' \<notin> set (removeprefix (removesuffix s ''.zip'') ''protoc-'')"
  using index_Inr_iff [of "removeprefix (removesuffix s ''.zip'') ''protoc-''" "CHR ''-''"]
        index_Inl [of "removeprefix (removesuffix s ''.zip'') ''protoc-''" "CHR ''-''"]
  by (auto simp: map_platform_def EXE_NAME_def Let_def split: sum.splits)

lemma build_unknown_platform_skipped:
  "f_is_file x \<Longrightarrow> map_platform (f_name x) = Inr None \<Longrightarrow>
   build_archives verbose (x # rest) st =
     build_archives verbose rest (st\<lparr>logged := logged st @ [WarningUnknownPlatform (f_name x)]\<rparr>)"
  by simp

section \<open>Releases and assets\<close>

text \<open>
  Claim C8. For every release, \<open>str(R)\<close> is the tag, and the version is the tag with one
  leading \<open>v\<close> removed: only when the tag starts with it, and only the first one. The
  three tags of the claim are evaluated as well.
\<close>

theorem release_str_and_version:
  "Release_str r = Release_tag r \<and>
   Release_version r =
     (case Release_tag r of [] \<Rightarrow> [] | c # rest \<Rightarrow> if c = CHR ''v'' then rest else c # rest) \<and>
   Release_version \<lparr>r_data = d, r_tag = ''v1.2''\<rparr> = ''1.2'' \<and>
   Release_version \<lparr>r_data = d, r_tag = ''1.2''\<rparr> = ''1.2'' \<and>
   Release_version \<lparr>r_data = d, r_tag = ''vv1.2''\<rparr> = ''v1.2''"
  by (cases "r_tag r")
     (simp_all add: Release_str_def Release_tag_def Release_version_def removeprefix_def
        startswith_def)

lemma Release_init_tag: "Release_init d = Inr r \<Longrightarrow> getstr d ''tag_name'' = Inr (r_tag r) \<and> r_data r = d"
  by (auto simp: Release_init_def split: sum.splits)

text \<open>
  Claim C6. Two releases are equal exactly when their tags are equal, and replacing the
  data either was built from changes nothing: equality reads the tag and nothing else.
\<close>

theorem release_eq_by_tag_only:
  "Release_eq r1 (PRelease r2) = (Release_tag r1 = Release_tag r2) \<and>
   Release_eq (r1\<lparr>r_data := d1\<rparr>) (PRelease (r2\<lparr>r_data := d2\<rparr>)) = Release_eq r1 (PRelease r2)"
  by (simp add: Release_tag_def)

text \<open>
  Claim C7. For two assets of the same name, built from releases \<open>r1\<close> and \<open>r2\<close>, the
  assets are equal exactly when the releases are; under releases of different tags they
  are distinct.
\<close>

theorem asset_eq_same_name:
  assumes "Asset_init d1 r1 = Inr a1" and "Asset_init d2 r2 = Inr a2"
    and "Asset_name a1 = Asset_name a2"
  shows "Asset_eq a1 (PAsset a2) = Release_eq r1 (PRelease r2) \<and>
         (Release_tag r1 \<noteq> Release_tag r2 \<longrightarrow> \<not> Asset_eq a1 (PAsset a2))"
  using assms
  by (auto simp: Asset_init_def Asset_name_def Release_tag_def split: sum.splits)

theorem asset_eq_same_name_witness:
  "Asset_init (JObj [(''name'', JStr ''protoc-1-win64.zip''), (''size'', JNum 1)])
     \<lparr>r_data = JNull, r_tag = ''v1''\<rparr>
     = Inr \<lparr>a_data = JObj [(''name'', JStr ''protoc-1-win64.zip''), (''size'', JNum 1)],
            a_name = ''protoc-1-win64.zip'', a_release = \<lparr>r_data = JNull, r_tag = ''v1''\<rparr>\<rparr> \<and>
   Asset_init (JObj [(''name'', JStr ''protoc-1-win64.zip'')])
     \<lparr>r_data = JNull, r_tag = ''v2''\<rparr>
     = Inr \<lparr>a_data = JObj [(''name'', JStr ''protoc-1-win64.zip'')],
            a_name = ''protoc-1-win64.zip'', a_release = \<lparr>r_data = JNull, r_tag = ''v2''\<rparr>\<rparr> \<and>
   \<not> Asset_eq
       \<lparr>a_data = JObj [(''name'', JStr ''protoc-1-win64.zip''), (''size'', JNum 1)],
            a_name = ''protoc-1-win64.zip'', a_release = \<lparr>r_data = JNull, r_tag = ''v1''\<rparr>\<rparr>
       (PAsset \<lparr>a_data = JObj [(''name'', JStr ''protoc-1-win64.zip'')],
            a_name = ''protoc-1-win64.zip'', a_release = \<lparr>r_data = JNull, r_tag = ''v2''\<rparr>\<rparr>)"
proof -
  let ?r1 = "\<lparr>r_data = JNull, r_tag = ''v1''\<rparr>"
  let ?r2 = "\<lparr>r_data = JNull, r_tag = ''v2''\<rparr>"
  let ?d1 = "JObj [(''name'', JStr ''protoc-1-win64.zip''), (''size'', JNum 1)]"
  let ?d2 = "JObj [(''name'', JStr ''protoc-1-win64.zip'')]"
  let ?a1 = "\<lparr>a_data = ?d1, a_name = ''protoc-1-win64.zip'', a_release = ?r1\<rparr>"
  let ?a2 = "\<lparr>a_data = ?d2, a_name = ''protoc-1-win64.zip'', a_release = ?r2\<rparr>"
  have h1: "Asset_init ?d1 ?r1 = Inr ?a1" by (simp add: Asset_init_def getstr_def)
  have h2: "Asset_init ?d2 ?r2 = Inr ?a2" by (simp add: Asset_init_def getstr_def)
  have h3: "Asset_name ?a1 = Asset_name ?a2" by (simp add: Asset_name_def)
  have h4: "Release_tag ?r1 \<noteq> Release_tag ?r2" by (simp add: Release_tag_def)
  from asset_eq_same_name [OF h1 h2 h3] h4 have "\<not> Asset_eq ?a1 (PAsset ?a2)" by blast
  with h1 h2 show ?thesis by blast
qed

section \<open>The credential\<close>

text \<open>
  Claim C2, as stated, at an environment whose first variable is set to the empty string
  and whose second holds a token with the recognised prefix: the first non-empty value is
  the second variable's, but the code takes the empty first one and attaches no header.
\<close>

theorem token_empty_first_counterexample:
  "spec_token [''GITHUB_TOKEN'' \<mapsto> [], ''GH_TOKEN'' \<mapsto> ''ghp_abc''] = ''ghp_abc'' \<and>
   token [''GITHUB_TOKEN'' \<mapsto> [], ''GH_TOKEN'' \<mapsto> ''ghp_abc''] = [] \<and>
   session_headers [''GITHUB_TOKEN'' \<mapsto> [], ''GH_TOKEN'' \<mapsto> ''ghp_abc''] Map.empty
     ''Authorization'' = None"
  by (simp add: spec_token_def token_def session_headers_def environ_get_def startswith_def)

text \<open>
  Claim C2, amended. The credential is the value of \<open>GITHUB_TOKEN\<close> when that variable
  is set, even to the empty string, otherwise the value of \<open>GH_TOKEN\<close> when set,
  otherwise empty. It is the first non-empty value whenever \<open>GITHUB_TOKEN\<close> is not set
  to the empty string. It is attached as \<open>Authorization: Bearer\<close> exactly when it starts
  with \<open>ghp_\<close>, and no other header is touched.
\<close>

theorem token_first_set_variable:
  "token environ =
     (case environ ''GITHUB_TOKEN'' of
        Some v \<Rightarrow> v
      | None \<Rightarrow> (case environ ''GH_TOKEN'' of Some v \<Rightarrow> v | None \<Rightarrow> [])) \<and>
   (environ ''GITHUB_TOKEN'' \<noteq> Some [] \<longrightarrow> token environ = spec_token environ) \<and>
   session_headers environ headers ''Authorization'' =
     (if \<exists>rest. token environ = ''ghp_'' @ rest then Some (''Bearer '' @ token environ)
      else headers ''Authorization'') \<and>
   (\<forall>k. k \<noteq> ''Authorization'' \<longrightarrow> session_headers environ headers k = headers k)"
proof -
  have 1: "token environ =
     (case environ ''GITHUB_TOKEN'' of
        Some v \<Rightarrow> v
      | None \<Rightarrow> (case environ ''GH_TOKEN'' of Some v \<Rightarrow> v | None \<Rightarrow> []))"
    by (simp add: token_def environ_get_def split: option.splits)
  have 2: "environ ''GITHUB_TOKEN'' \<noteq> Some [] \<longrightarrow> token environ = spec_token environ"
    by (auto simp: token_def spec_token_def environ_get_def split: option.splits)
  have 3: "session_headers environ headers ''Authorization'' =
     (if \<exists>rest. token environ = ''ghp_'' @ rest then Some (''Bearer '' @ token environ)
      else headers ''Authorization'')"
    unfolding session_headers_def startswith_append by simp
  have 4: "\<forall>k. k \<noteq> ''Authorization'' \<longrightarrow> session_headers environ headers k = headers k"
    by (simp add: session_headers_def)
  from 1 2 3 4 show ?thesis by blast
qed

theorem token_first_set_variable_witness:
  "[''GH_TOKEN'' \<mapsto> ''ghp_abc''] ''GITHUB_TOKEN'' \<noteq> Some [] \<and>
   token [''GH_TOKEN'' \<mapsto> ''ghp_abc''] = spec_token [''GH_TOKEN'' \<mapsto> ''ghp_abc''] \<and>
   token [''GH_TOKEN'' \<mapsto> ''ghp_abc''] = ''ghp_abc'' \<and>
   ''Accept'' \<noteq> ''Authorization'' \<and>
   session_headers [''GH_TOKEN'' \<mapsto> ''ghp_abc''] [''Accept'' \<mapsto> ''*/*''] ''Accept'' = Some ''*/*'' \<and>
   session_headers [''GH_TOKEN'' \<mapsto> ''ghp_abc''] [''Accept'' \<mapsto> ''*/*''] ''Authorization''
     = Some ''Bearer ghp_abc''"
  using token_first_set_variable [of "[''GH_TOKEN'' \<mapsto> ''ghp_abc'']" "[''Accept'' \<mapsto> ''*/*'']"]
  by (simp add: spec_token_def environ_get_def)

section \<open>Platform mapping in the build step\<close>

text \<open>
  Claim C3 at asset names that hold no dash once the suffix and the prefix are removed:
  \<open>map_platform\<close> raises \<open>ValueError\<close> instead of returning \<open>None\<close>, and the build
  step ends with that error instead of a warning.
\<close>

theorem map_platform_no_dash_fatal:
  "map_platform ''protoc.zip'' = Inl ValueError \<and>
   map_platform ''protoc-win64.zip'' = Inl ValueError \<and>
   build_archives verbose
     [\<lparr>f_name = ''protoc.zip'', f_is_file = True, f_members = [(''bin/protoc'', ''x'')]\<rparr>] st
     = Inl ValueError"
  by (simp add: map_platform_def removesuffix_def removeprefix_def endswith_def startswith_def
      EXE_NAME_def)


section \<open>Lazy sequences and the Differ\<close>

lemma yields_filter: "yields (filter (keep p) evs) = filter p (yields evs)"
  by (induction evs rule: yields.induct) auto

lemma fetches_filter: "fetches (filter (keep p) evs) = fetches evs"
  by (induction evs rule: fetches.induct) auto

lemma yielded_gen_filter: "yielded (gen_filter p g) = filter p (yielded g)"
  by (cases g) (simp add: yielded_def yields_filter)

lemma fetched_gen_filter: "fetched (gen_filter p g) = fetched g"
  by (cases g) (simp add: fetched_def fetches_filter)

lemma ending_gen_filter: "ending (gen_filter p g) = ending g"
  by (cases g) simp

lemma gen_filter_True: "gen_filter (\<lambda>x. True) g = g"
proof (cases g)
  case (Gen evs en)
  have "filter (keep (\<lambda>x. True)) evs = evs"
    by (induction evs rule: yields.induct) auto
  with Gen show ?thesis by simp
qed

lemma gen_filter_twice: "gen_filter p (gen_filter q g) = gen_filter (\<lambda>x. q x \<and> p x) g"
proof (cases g)
  case (Gen evs en)
  have "filter (keep p) (filter (keep q) evs) = filter (keep (\<lambda>x. q x \<and> p x)) evs"
    by (induction evs rule: yields.induct) auto
  with Gen show ?thesis by simp
qed

lemma py_in_tags: "py_in it ig \<longleftrightarrow> r_tag it \<in> set (map r_tag ig)"
  by (induction ig) auto

lemma releases_body_spec: "releases_body src tag_filter ignore = spec_differ src tag_filter ignore"
  by (cases tag_filter; cases ignore)
     (simp_all add: releases_body_def spec_differ_def spec_predicate_def [abs_def]
        gen_filter_True py_in_tags Release_tag_def conj_commute)

lemma layered_spec: "layered src tag_filter ignore = spec_differ src tag_filter ignore"
  by (cases tag_filter; cases ignore)
     (simp_all add: layered_def spec_differ_def spec_predicate_def [abs_def]
        gen_filter_True gen_filter_twice)

lemma tag_filter_examples:
  "re_match v3_tags ''v3.21.0'' \<and> \<not> re_match v3_tags ''v2.5.0'' \<and>
   \<not> re_match v3_tags ''release-v3.21.0'' \<and> re_search v3_tags ''release-v3.21.0''"
  by (simp add: v3_tags_def Plus_def is_digit_def)

text \<open>
  Claim C4. The four branches of \<open>GHSrcRepo.releases\<close> equal one pass over the source
  with the single predicate (filter absent or matching) and (not already present), for
  every source, filter and exclusion, present or absent; so does the method as called;
  and filters layered one after another equal the single combined filter.
\<close>

theorem four_branches_one_predicate:
  "releases_body src tag_filter ignore = spec_differ src tag_filter ignore \<and>
   GHSrcRepo_releases w fuel self tag_filter already =
     spec_differ (GHRepo_releases w fuel self) tag_filter (Some already) \<and>
   layered src tag_filter ignore = releases_body src tag_filter ignore \<and>
   gen_filter p (gen_filter q src) = gen_filter (\<lambda>it. q it \<and> p it) src"
  by (simp add: releases_body_spec layered_spec GHSrcRepo_releases_def gen_filter_twice)

text \<open>
  Claim C1. The releases the Differ yields are those of the source, in the source's
  order, for which the tag filter is absent or matches a prefix of the tag and which
  equal no already-present release. It sends the requests of the source and ends as the
  source does. A release is excluded by an already-present release of the same tag
  whatever the data of the two.
\<close>

theorem differ_yields:
  "yielded (GHSrcRepo_releases w fuel self tag_filter already) =
     filter (\<lambda>it. (case tag_filter of
                      None \<Rightarrow> True
                    | Some tf \<Rightarrow> \<exists>p q. Release_tag it = p @ q \<and> p \<in> lang tf) \<and>
                  \<not> (\<exists>a \<in> set already. Release_eq a (PRelease it)))
       (yielded (GHRepo_releases w fuel self)) \<and>
   yielded (releases_body src tag_filter (Some already)) =
     filter (\<lambda>it. (case tag_filter of
                      None \<Rightarrow> True
                    | Some tf \<Rightarrow> \<exists>p q. Release_tag it = p @ q \<and> p \<in> lang tf) \<and>
                  \<not> (\<exists>a \<in> set already. Release_eq a (PRelease it)))
       (yielded src) \<and>
   fetched (releases_body src tag_filter (Some already)) = fetched src \<and>
   ending (releases_body src tag_filter (Some already)) = ending src \<and>
   (\<forall>a it. a \<in> set already \<and> Release_tag a = Release_tag it \<longrightarrow>
      it \<notin> set (yielded (releases_body src tag_filter (Some already))))"
proof -
  let ?P = "\<lambda>it. (case tag_filter of
                      None \<Rightarrow> True
                    | Some tf \<Rightarrow> \<exists>p q. Release_tag it = p @ q \<and> p \<in> lang tf) \<and>
                  \<not> (\<exists>a \<in> set already. Release_eq a (PRelease it))"
  have P: "spec_predicate tag_filter (Some already) = ?P"
  proof (rule ext)
    fix it :: release
    have "(r_tag it \<in> r_tag ` set already) = (\<exists>a \<in> set already. r_tag a = r_tag it)"
      by (metis (no_types, lifting) image_iff)
    then show "spec_predicate tag_filter (Some already) it = ?P it"
      by (simp add: spec_predicate_def re_match_prefix Release_tag_def split: option.splits)
  qed
  have body: "yielded (releases_body src' tag_filter (Some already)) = filter ?P (yielded src')"
    for src'
    by (simp only: releases_body_spec spec_differ_def yielded_gen_filter P)
  have excl: "\<forall>a it. a \<in> set already \<and> Release_tag a = Release_tag it \<longrightarrow>
      it \<notin> set (yielded (releases_body src tag_filter (Some already)))"
    unfolding body by (auto simp: Release_tag_def)
  show ?thesis
    using body [of src] body [of "GHRepo_releases w fuel self"] excl
    by (simp add: GHSrcRepo_releases_def releases_body_spec spec_differ_def
        fetched_gen_filter ending_gen_filter)
qed

theorem differ_yields_witness:
  "\<lparr>r_data = JNull, r_tag = ''v1''\<rparr> \<in> set [\<lparr>r_data = JNull, r_tag = ''v1''\<rparr>] \<and>
   Release_tag \<lparr>r_data = JNull, r_tag = ''v1''\<rparr> =
     Release_tag \<lparr>r_data = JObj [(''tag_name'', JStr ''v1''), (''assets'', JArr [])], r_tag = ''v1''\<rparr> \<and>
   \<lparr>r_data = JObj [(''tag_name'', JStr ''v1''), (''assets'', JArr [])], r_tag = ''v1''\<rparr>
     \<notin> set (yielded (releases_body
         (Gen [Fetch list_url,
               Yield \<lparr>r_data = JObj [(''tag_name'', JStr ''v2'')], r_tag = ''v2''\<rparr>,
               Yield \<lparr>r_data = JObj [(''tag_name'', JStr ''v1''), (''assets'', JArr [])], r_tag = ''v1''\<rparr>]
            Finished)
         None (Some [\<lparr>r_data = JNull, r_tag = ''v1''\<rparr>]))) \<and>
   yielded (releases_body
         (Gen [Fetch list_url,
               Yield \<lparr>r_data = JObj [(''tag_name'', JStr ''v2'')], r_tag = ''v2''\<rparr>,
               Yield \<lparr>r_data = JObj [(''tag_name'', JStr ''v1''), (''assets'', JArr [])], r_tag = ''v1''\<rparr>]
            Finished)
         None (Some [\<lparr>r_data = JNull, r_tag = ''v1''\<rparr>]))
     = [\<lparr>r_data = JObj [(''tag_name'', JStr ''v2'')], r_tag = ''v2''\<rparr>]"
  using differ_yields [of failing_world 0 upstream None "[\<lparr>r_data = JNull, r_tag = ''v1''\<rparr>]"
     "Gen [Fetch list_url,
               Yield \<lparr>r_data = JObj [(''tag_name'', JStr ''v2'')], r_tag = ''v2''\<rparr>,
               Yield \<lparr>r_data = JObj [(''tag_name'', JStr ''v1''), (''assets'', JArr [])], r_tag = ''v1''\<rparr>]
            Finished"]
  by (simp add: yielded_def Release_tag_def)

section \<open>The Asset Selector\<close>

lemma yields_map_Yield: "yields (map Yield xs) = xs"
  by (induction xs) auto

lemma gen_map_all: "map f ds = map Inr xs \<Longrightarrow> gen_map f ds = Gen (map Yield xs) Finished"
proof (induction ds arbitrary: xs)
  case Nil
  then show ?case by simp
next
  case (Cons d ds)
  then obtain y ys where xs: "xs = y # ys" by (cases xs) auto
  with Cons.prems have "f d = Inr y" "map f ds = map Inr ys" by auto
  with Cons.IH [of ys] xs show ?case by simp
qed

lemma Asset_init_all:
  "map (\<lambda>d. getstr d ''name'') ds = map Inr names \<Longrightarrow>
   map (\<lambda>it. Asset_init it self) ds =
     map Inr (map (\<lambda>(d, n). \<lparr>a_data = d, a_name = n, a_release = self\<rparr>) (zip ds names))"
proof (induction ds arbitrary: names)
  case Nil
  then show ?case by simp
next
  case (Cons d ds)
  then obtain n ns where names: "names = n # ns" by (cases names) auto
  with Cons.prems have "getstr d ''name'' = Inr n" "map (\<lambda>d. getstr d ''name'') ds = map Inr ns"
    by auto
  with Cons.IH [of ns] names show ?case by (simp add: Asset_init_def)
qed

text \<open>
  Claim C5. For a release whose data holds a list of assets, each with a name:
  without a filter \<open>Release.assets\<close> yields every asset in the order of the data; with a
  filter it yields, in the same order, exactly the assets of whose name the pattern
  matches a prefix; and an empty list of assets yields nothing under any filter.
\<close>

theorem release_assets_selected:
  assumes "getitem (r_data self) ''assets'' = Inr (JArr ds)"
    and "map (\<lambda>d. getstr d ''name'') ds = map Inr names"
  shows "(\<exists>g. Release_assets self None = Inr g \<and> ending g = Finished \<and>
              yielded g =
                map (\<lambda>(d, n). \<lparr>a_data = d, a_name = n, a_release = self\<rparr>) (zip ds names)) \<and>
         (\<exists>g. Release_assets self (Some asset_filter) = Inr g \<and> ending g = Finished \<and>
              yielded g =
                filter (\<lambda>a. \<exists>p q. Asset_name a = p @ q \<and> p \<in> lang asset_filter)
                  (map (\<lambda>(d, n). \<lparr>a_data = d, a_name = n, a_release = self\<rparr>) (zip ds names))) \<and>
         (ds = [] \<longrightarrow> (\<forall>flt. \<exists>g. Release_assets self flt = Inr g \<and> yielded g = []))"
proof -
  let ?all = "map (\<lambda>(d, n). \<lparr>a_data = d, a_name = n, a_release = self\<rparr>) (zip ds names)"
  have gm: "gen_map (\<lambda>it. Asset_init it self) ds = Gen (map Yield ?all) Finished"
    using Asset_init_all [OF assms(2)] by (rule gen_map_all)
  have none: "Release_assets self None = Inr (Gen (map Yield ?all) Finished)"
    by (simp add: Release_assets_def assms(1) gm)
  have some: "Release_assets self (Some f) =
                Inr (gen_filter (\<lambda>it. re_match f (Asset_name it)) (Gen (map Yield ?all) Finished))"
    for f
    by (simp add: Release_assets_def assms(1) gm)
  have 1: "\<exists>g. Release_assets self None = Inr g \<and> ending g = Finished \<and> yielded g = ?all"
    by (simp add: none yielded_def yields_map_Yield del: map_map)
  have 2: "\<exists>g. Release_assets self (Some asset_filter) = Inr g \<and> ending g = Finished \<and>
              yielded g = filter (\<lambda>a. \<exists>p q. Asset_name a = p @ q \<and> p \<in> lang asset_filter) ?all"
    by (simp add: some yielded_def yields_filter yields_map_Yield re_match_prefix del: map_map)
  have 3: "ds = [] \<longrightarrow> (\<forall>flt. \<exists>g. Release_assets self flt = Inr g \<and> yielded g = [])"
  proof (intro impI allI)
    fix flt
    assume "ds = []"
    then show "\<exists>g. Release_assets self flt = Inr g \<and> yielded g = []"
      by (cases flt) (simp_all add: none some yielded_def)
  qed
  from 1 2 3 show ?thesis by blast
qed

theorem release_assets_selected_witness:
  "getitem (r_data two_assets) ''assets'' =
     Inr (JArr [JObj [(''name'', JStr ''protoc-1-linux-x86_64.zip'')],
                JObj [(''name'', JStr ''protoc-1-win64.zip'')]]) \<and>
   map (\<lambda>d. getstr d ''name'')
     [JObj [(''name'', JStr ''protoc-1-linux-x86_64.zip'')],
      JObj [(''name'', JStr ''protoc-1-win64.zip'')]] =
     map Inr [''protoc-1-linux-x86_64.zip'', ''protoc-1-win64.zip''] \<and>
   (\<exists>g. Release_assets two_assets None = Inr g \<and> ending g = Finished \<and>
        yielded g =
          [\<lparr>a_data = JObj [(''name'', JStr ''protoc-1-linux-x86_64.zip'')],
            a_name = ''protoc-1-linux-x86_64.zip'', a_release = two_assets\<rparr>,
           \<lparr>a_data = JObj [(''name'', JStr ''protoc-1-win64.zip'')],
            a_name = ''protoc-1-win64.zip'', a_release = two_assets\<rparr>]) \<and>
   (\<exists>g. Release_assets two_assets (Some linux_zip) = Inr g \<and> ending g = Finished \<and>
        yielded g =
          [\<lparr>a_data = JObj [(''name'', JStr ''protoc-1-linux-x86_64.zip'')],
            a_name = ''protoc-1-linux-x86_64.zip'', a_release = two_assets\<rparr>])"
proof -
  let ?d1 = "JObj [(''name'', JStr ''protoc-1-linux-x86_64.zip'')]"
  let ?d2 = "JObj [(''name'', JStr ''protoc-1-win64.zip'')]"
  have h1: "getitem (r_data two_assets) ''assets'' = Inr (JArr [?d1, ?d2])"
    by (simp add: two_assets_def)
  have h2: "map (\<lambda>d. getstr d ''name'') [?d1, ?d2] =
            map Inr [''protoc-1-linux-x86_64.zip'', ''protoc-1-win64.zip'']"
    by (simp add: getstr_def)
  have m1: "re_match linux_zip ''protoc-1-linux-x86_64.zip''"
    by (simp add: linux_zip_def is_digit_def)
  have m2: "\<not> re_match linux_zip ''protoc-1-win64.zip''"
    by (simp add: linux_zip_def is_digit_def)
  note sel = release_assets_selected [OF h1 h2, of linux_zip, unfolded re_match_prefix [symmetric]]
  have c: "(\<exists>g. Release_assets two_assets None = Inr g \<and> ending g = Finished \<and>
        yielded g =
          [\<lparr>a_data = ?d1, a_name = ''protoc-1-linux-x86_64.zip'', a_release = two_assets\<rparr>,
           \<lparr>a_data = ?d2, a_name = ''protoc-1-win64.zip'', a_release = two_assets\<rparr>]) \<and>
   (\<exists>g. Release_assets two_assets (Some linux_zip) = Inr g \<and> ending g = Finished \<and>
        yielded g =
          [\<lparr>a_data = ?d1, a_name = ''protoc-1-linux-x86_64.zip'', a_release = two_assets\<rparr>])"
    using sel by (simp add: Asset_name_def m1 m2 del: re_match.simps)
  from h1 h2 c show ?thesis by (intro conjI) simp_all
qed

section \<open>Listing releases\<close>

lemma fetches_gen_map: "fetches (events (gen_map f ds)) = []"
proof (induction ds)
  case Nil
  show ?case by simp
next
  case (Cons d ds)
  then show ?case
    by (cases "gen_map f ds") (simp split: sum.splits)
qed

lemma fetched_prepend: "fetched (gen_prepend pre g) = fetches pre @ fetched g"
proof (cases g)
  case (Gen evs en)
  have "fetches (pre @ evs) = fetches pre @ fetches evs"
    by (induction pre rule: fetches.induct) auto
  with Gen show ?thesis by (simp add: fetched_def)
qed

lemma ending_prepend: "ending (gen_prepend pre g) = ending g"
  by (cases g) simp

lemma events_prepend: "events (gen_prepend pre g) = pre @ events g"
  by (cases g) simp

text \<open>One turn of the loop: either it is the last, or the loop goes on at the next link.\<close>

lemma loop_step:
  "(fetched (releases_loop w (Suc n) i url) = [url] \<and>
    (\<forall>response. http_get w i url = Inr response \<longrightarrow> raise_for_status response \<noteq> None \<longrightarrow>
       releases_loop w (Suc n) i url = Gen [Fetch url] (Raised (the (raise_for_status response))))) \<or>
   (\<exists>response evs u. http_get w i url = Inr response \<and> raise_for_status response = None \<and>
      fetches evs = [] \<and>
      releases_loop w (Suc n) i url = gen_prepend (Fetch url # evs) (releases_loop w n (Suc i) u))"
proof (cases "http_get w i url")
  case (Inl e)
  then show ?thesis by (simp add: fetched_def)
next
  case (Inr response)
  show ?thesis
  proof (cases "raise_for_status response")
    case (Some e)
    with Inr show ?thesis by (simp add: fetched_def)
  next
    case None
    show ?thesis
    proof (cases "json_parse w (content response)")
      case (Inl e)
      with Inr None show ?thesis by (simp add: fetched_def)
    next
      case doc: (Inr doc)
      show ?thesis
      proof (cases "py_iter doc")
        case (Inl e)
        with Inr None doc show ?thesis by (simp add: fetched_def)
      next
        case ds: (Inr ds)
        obtain evs en where g: "gen_map Release_init ds = Gen evs en"
          by (cases "gen_map Release_init ds")
        have evs: "fetches evs = []"
          using fetches_gen_map [of Release_init ds] g by simp
        show ?thesis
          using Inr None doc ds g evs
          by (cases en; cases "links response ''next''")
             (auto simp: fetched_def split: option.splits)
      qed
    qed
  qed
qed

lemma loop_error_is_last:
  "k < length (fetched (releases_loop w n i url)) \<Longrightarrow>
   http_get w (i + k) (fetched (releases_loop w n i url) ! k) = Inr response \<Longrightarrow>
   raise_for_status response = Some e \<Longrightarrow>
   length (fetched (releases_loop w n i url)) = Suc k \<and>
   ending (releases_loop w n i url) = Raised e \<and>
   last (events (releases_loop w n i url)) = Fetch (fetched (releases_loop w n i url) ! k)"
proof (induction n arbitrary: i url k)
  case 0
  then show ?case by (simp add: fetched_def)
next
  case (Suc n)
  let ?g = "releases_loop w (Suc n) i url"
  from loop_step [of w n i url] consider
    (stop) "fetched ?g = [url]"
       "\<forall>r. http_get w i url = Inr r \<longrightarrow> raise_for_status r \<noteq> None \<longrightarrow>
            ?g = Gen [Fetch url] (Raised (the (raise_for_status r)))"
  | (continue) r evs u where "http_get w i url = Inr r" "raise_for_status r = None"
       "fetches evs = []" "?g = gen_prepend (Fetch url # evs) (releases_loop w n (Suc i) u)"
    by blast
  then show ?case
  proof cases
    case stop
    with Suc.prems have k: "k = 0" by (simp del: releases_loop.simps)
    with Suc.prems stop(1) have "http_get w i url = Inr response"
      by (simp del: releases_loop.simps)
    with stop(2) Suc.prems(3) have "?g = Gen [Fetch url] (Raised e)"
      by (simp del: releases_loop.simps)
    with k show ?thesis by (simp add: fetched_def del: releases_loop.simps)
  next
    case continue
    let ?rest = "releases_loop w n (Suc i) u"
    have f: "fetched ?g = url # fetched ?rest"
      by (simp add: continue(3,4) fetched_prepend del: releases_loop.simps)
    show ?thesis
    proof (cases k)
      case 0
      with Suc.prems(2) f have "http_get w i url = Inr response"
        by (simp del: releases_loop.simps)
      with continue(1,2) Suc.prems(3) show ?thesis by simp
    next
      case (Suc k')
      with Suc.prems f have k': "k' < length (fetched ?rest)"
        and get: "http_get w (Suc i + k') (fetched ?rest ! k') = Inr response"
        by (simp_all del: releases_loop.simps)
      from Suc.IH [OF k' get Suc.prems(3)]
      have ih: "length (fetched ?rest) = Suc k'" "ending ?rest = Raised e"
        "last (events ?rest) = Fetch (fetched ?rest ! k')" by simp_all
      from k' have "events ?rest \<noteq> []" by (auto simp: fetched_def)
      with ih Suc f show ?thesis
        by (simp add: continue(4) ending_prepend events_prepend del: releases_loop.simps)
    qed
  qed
qed

lemma loop_more_fuel:
  "ending (releases_loop w n i url) \<noteq> Unfinished \<Longrightarrow>
   releases_loop w (n + m) i url = releases_loop w n i url"
proof (induction n arbitrary: i url)
  case 0
  then show ?case by simp
next
  case (Suc n)
  then show ?case
    by (auto simp: ending_prepend split: sum.splits option.splits gen.splits ending.splits)
qed

lemma upstream_url:
  "g_base_url upstream @ ''/repos/'' @ g_repo upstream @ ''/releases?per_page=100'' = list_url"
  by (simp add: upstream_def GHRepo_init_def list_url_def)

lemma failing_run:
  "GHRepo_releases failing_world 3 upstream =
     Gen [Fetch list_url,
          Yield \<lparr>r_data = JObj [(''tag_name'', JStr ''v1''), (''assets'', JArr [])], r_tag = ''v1''\<rparr>,
          Fetch page2_url]
       (Raised (HTTPError 503))"
  unfolding GHRepo_releases_def upstream_url
  by (simp add: eval_nat_numeral failing_world_def one_release_doc_def Release_init_def
      getstr_def raise_for_status_def)

text \<open>
  Claim C9, as stated, at a response that is not 2xx: the server answers
  \<open>300 Multiple Choices\<close> with a list of one release. \<open>raise_for_status\<close> lets it
  pass, the release is yielded and the listing ends normally.
\<close>

theorem non_2xx_not_fatal_counterexample:
  "http_get multiple_choices_world 0 list_url =
     Inr \<lparr>status_code = 300, content = ''page'', links = Map.empty\<rparr> \<and>
   \<not> (200 \<le> (300::nat) \<and> (300::nat) < 300) \<and>
   GHRepo_releases multiple_choices_world 1 upstream =
     Gen [Fetch list_url,
          Yield \<lparr>r_data = JObj [(''tag_name'', JStr ''v1''), (''assets'', JArr [])], r_tag = ''v1''\<rparr>]
       Finished"
  unfolding GHRepo_releases_def upstream_url
  by (simp add: multiple_choices_world_def one_release_doc_def Release_init_def
      getstr_def raise_for_status_def)

text \<open>
  Claim C9, amended. While listing releases, a response with a status from 400 to 599
  ends the listing with \<open>HTTPError\<close>: its request is the last one sent and the last
  thing that happens, more fuel changes nothing, and the Differ ends with the same error
  after the same requests.
\<close>

theorem http_error_ends_listing:
  assumes "k < length (fetched (GHRepo_releases w fuel self))"
    and "http_get w k (fetched (GHRepo_releases w fuel self) ! k) = Inr response"
    and "400 \<le> status_code response" and "status_code response < 600"
  shows "ending (GHRepo_releases w fuel self) = Raised (HTTPError (status_code response)) \<and>
         length (fetched (GHRepo_releases w fuel self)) = Suc k \<and>
         last (events (GHRepo_releases w fuel self)) =
           Fetch (fetched (GHRepo_releases w fuel self) ! k) \<and>
         GHRepo_releases w (fuel + extra) self = GHRepo_releases w fuel self \<and>
         ending (GHSrcRepo_releases w fuel self tag_filter already) =
           Raised (HTTPError (status_code response)) \<and>
         fetched (GHSrcRepo_releases w fuel self tag_filter already) =
           fetched (GHRepo_releases w fuel self)"
proof -
  let ?url = "g_base_url self @ ''/repos/'' @ g_repo self @ ''/releases?per_page=100''"
  have r: "raise_for_status response = Some (HTTPError (status_code response))"
    using assms(3,4) by (simp add: raise_for_status_def)
  have k: "k < length (fetched (releases_loop w fuel 0 ?url))"
    using assms(1) by (simp add: GHRepo_releases_def)
  have g: "http_get w (0 + k) (fetched (releases_loop w fuel 0 ?url) ! k) = Inr response"
    using assms(2) by (simp add: GHRepo_releases_def)
  from loop_error_is_last [OF k g r]
  have 1: "length (fetched (GHRepo_releases w fuel self)) = Suc k"
    and 2: "ending (GHRepo_releases w fuel self) = Raised (HTTPError (status_code response))"
    and 3: "last (events (GHRepo_releases w fuel self)) =
              Fetch (fetched (GHRepo_releases w fuel self) ! k)"
    by (simp_all add: GHRepo_releases_def)
  from 2 have 4: "GHRepo_releases w (fuel + extra) self = GHRepo_releases w fuel self"
    by (simp add: GHRepo_releases_def loop_more_fuel)
  have 5: "ending (GHSrcRepo_releases w fuel self tag_filter already) =
             Raised (HTTPError (status_code response))"
    by (simp add: GHSrcRepo_releases_def releases_body_spec spec_differ_def ending_gen_filter 2)
  have 6: "fetched (GHSrcRepo_releases w fuel self tag_filter already) =
             fetched (GHRepo_releases w fuel self)"
    by (simp add: GHSrcRepo_releases_def releases_body_spec spec_differ_def fetched_gen_filter)
  from 1 2 3 4 5 6 show ?thesis by blast
qed

theorem http_error_ends_listing_witness:
  "1 < length (fetched (GHRepo_releases failing_world 3 upstream)) \<and>
   http_get failing_world 1 (fetched (GHRepo_releases failing_world 3 upstream) ! 1) =
     Inr \<lparr>status_code = 503, content = [], links = Map.empty\<rparr> \<and>
   ending (GHRepo_releases failing_world 3 upstream) = Raised (HTTPError 503) \<and>
   fetched (GHRepo_releases failing_world 3 upstream) = [list_url, page2_url] \<and>
   last (events (GHRepo_releases failing_world 3 upstream)) = Fetch page2_url \<and>
   GHRepo_releases failing_world (3 + 7) upstream = GHRepo_releases failing_world 3 upstream \<and>
   ending (GHSrcRepo_releases failing_world 3 upstream None []) = Raised (HTTPError 503)"
proof -
  let ?r = "\<lparr>status_code = 503, content = [], links = Map.empty\<rparr>"
  have f: "fetched (GHRepo_releases failing_world 3 upstream) = [list_url, page2_url]"
    by (simp add: failing_run fetched_def)
  have h1: "1 < length (fetched (GHRepo_releases failing_world 3 upstream))"
    by (simp add: f)
  have h2: "http_get failing_world 1 (fetched (GHRepo_releases failing_world 3 upstream) ! 1) = Inr ?r"
    by (simp add: f failing_world_def)
  have h3: "400 \<le> status_code ?r" and h4: "status_code ?r < 600" by simp_all
  from http_error_ends_listing [OF h1 h2 h3 h4, of 7 None "[]"] h1 h2 f
  show ?thesis by simp
qed

section \<open>Reproducible wheel entries\<close>

text \<open>
  Claim C10. Whatever \<open>create_system\<close> and \<open>date_time\<close> the caller's entry carries,
  \<open>ReproducibleWheelFile.writestr\<close> hands the entry on with \<open>create_system = 3\<close> and
  \<open>date_time = (1980, 1, 1, 0, 0, 0)\<close>; every entry the assemble loop adds to an
  archive carries these two values; and what the loop writes does not depend on the
  platform default of \<open>create_system\<close>.
\<close>

theorem writestr_forces_fields:
  "writestr super_writestr (zi\<lparr>create_system := cs, date_time := dt\<rparr>) bytes whl =
     super_writestr (zi\<lparr>create_system := 3, date_time := (1980, 1, 1, 0, 0, 0)\<rparr>) bytes whl \<and>
   map (\<lambda>e. (create_system (fst e), date_time (fst e)))
       (write_entries append_entry win32 entries whl0) =
     map (\<lambda>e. (create_system (fst e), date_time (fst e))) whl0 @
     replicate (length entries) (3, (1980, 1, 1, 0, 0, 0)) \<and>
   write_entries super_writestr win32 entries whl = write_entries super_writestr False entries whl"
proof -
  have 1: "writestr super_writestr (zi\<lparr>create_system := cs, date_time := dt\<rparr>) bytes whl =
     super_writestr (zi\<lparr>create_system := 3, date_time := (1980, 1, 1, 0, 0, 0)\<rparr>) bytes whl"
    by (simp add: writestr_def)
  have 2: "map (\<lambda>e. (create_system (fst e), date_time (fst e)))
       (write_entries append_entry win32 entries whl0) =
     map (\<lambda>e. (create_system (fst e), date_time (fst e))) whl0 @
     replicate (length entries) (3, (1980, 1, 1, 0, 0, 0))"
  proof (induction entries arbitrary: whl0)
    case Nil
    show ?case by simp
  next
    case (Cons e es)
    obtain k0 v p where e: "e = (k0, v, p)" by (cases e)
    show ?case
      by (simp add: e Cons.IH writestr_def) (simp add: append_entry_def)
  qed
  have 3: "write_entries super_writestr win32 entries whl =
           write_entries super_writestr False entries whl"
  proof (induction entries arbitrary: whl)
    case Nil
    show ?case by simp
  next
    case (Cons e es)
    obtain k0 v p where e: "e = (k0, v, p)" by (cases e)
    show ?case by (simp add: e Cons.IH writestr_def ZipInfo_def)
  qed
  from 1 2 3 show ?thesis by blast
qed

end
